theory Spec2Isabelle
  imports Complex_Main
begin

section \<open>Strings\<close>

text \<open>
  JavaScript strings are modelled as \<^typ>\<open>string\<close> (lists of 8-bit characters), so the
  development covers the ASCII range: \<open>toLowerCase\<close> maps \<open>A..Z\<close> to \<open>a..z\<close> and leaves
  every other character alone, and \<open>trim\<close> strips the ASCII white space characters
  (space, tab, line feed, vertical tab, form feed, carriage return) from both ends.
\<close>

definition lower_char :: "char \<Rightarrow> char" where
  \<comment> \<open>An upper-case letter has code 65..90; adding 32 sets bit 5, which is clear there.\<close>
  "lower_char c =
     (if 65 \<le> (of_char c :: nat) \<and> (of_char c :: nat) \<le> 90
      then (case c of Char b0 b1 b2 b3 b4 b5 b6 b7 \<Rightarrow> Char b0 b1 b2 b3 b4 True b6 b7)
      else c)"

definition toLowerCase :: "string \<Rightarrow> string" where
  "toLowerCase s = map lower_char s"

definition is_space :: "char \<Rightarrow> bool" where
  "is_space c \<longleftrightarrow> (of_char c :: nat) = 32 \<or> (9 \<le> (of_char c :: nat) \<and> (of_char c :: nat) \<le> 13)"

definition trim :: "string \<Rightarrow> string" where
  "trim s = rev (dropWhile is_space (rev (dropWhile is_space s)))"

text \<open>Case-insensitive equality of two strings.\<close>

definition same_ci :: "string \<Rightarrow> string \<Rightarrow> bool" where
  "same_ci a b \<longleftrightarrow> toLowerCase a = toLowerCase b"


section \<open>The user registry (\<open>utils/users\<close>)\<close>

type_synonym connId = string

text \<open>
  Modelled from the spec: the module \<open>./utils/users\<close> that \<open>server.js\<close> requires
  (\<open>addUser\<close>, \<open>removeUser\<close>, \<open>getUser\<close>, \<open>getUsersInRoom\<close>) is missing from the
  sources, so the User record and the four registry operations follow sections 3 and 4.1
  of the specification. A User has a connection id, a trimmed username and a trimmed room.
\<close>

record User =
  connectionId :: connId
  username :: string
  room :: string

text \<open>
  Modelled from the spec: the registry state is the spec's mapping from connection id to
  User. It is kept as the list of its User records in insertion order (the order
  \<open>getUsersInRoom\<close> reports), with at most one record per connection id.
\<close>

type_synonym registry = "User list"

datatype AddUserError = MissingField | UsernameTaken

text \<open>
  Modelled from the spec: \<open>holds_name us uname rname\<close> says that an existing User in
  the same room (case-insensitive match) already holds that username.
\<close>

definition holds_name :: "registry \<Rightarrow> string \<Rightarrow> string \<Rightarrow> bool" where
  "holds_name us uname rname \<longleftrightarrow>
     (\<exists>v \<in> set us. same_ci (room v) rname \<and> same_ci (username v) uname)"

text \<open>
  Modelled from the spec: inserting into the mapping binds the record to its connection
  id; a record previously bound to the same id is replaced.
\<close>

definition insert_user :: "User \<Rightarrow> registry \<Rightarrow> registry" where
  "insert_user u us = filter (\<lambda>v. connectionId v \<noteq> connectionId u) us @ [u]"

text \<open>
  Modelled from the spec: \<open>addUser\<close> trims and validates the raw username and room; it
  fails with \<open>MissingField\<close> if either is empty after trimming, with \<open>UsernameTaken\<close> if an
  existing User in the same room already holds the username, and otherwise inserts and
  returns the new User. The result carries the registry after the call.
\<close>

definition addUser :: "registry \<Rightarrow> connId \<Rightarrow> string \<Rightarrow> string \<Rightarrow> AddUserError + (User \<times> registry)" where
  "addUser us cid rawUsername rawRoom =
     (let uname = trim rawUsername; rname = trim rawRoom in
      if uname = [] \<or> rname = [] then Inl MissingField
      else if holds_name us uname rname then Inl UsernameTaken
      else
        let user = \<lparr>connectionId = cid, username = uname, room = rname\<rparr>
        in Inr (user, insert_user user us))"

text \<open>Modelled from the spec: \<open>getUser\<close> is a pure lookup by connection id.\<close>

definition getUser :: "registry \<Rightarrow> connId \<Rightarrow> User option" where
  "getUser us cid = find (\<lambda>v. connectionId v = cid) us"

text \<open>
  Modelled from the spec: \<open>removeUser\<close> removes and returns the User record of the
  connection if present, and otherwise reports absence and leaves the registry alone.
\<close>

definition removeUser :: "registry \<Rightarrow> connId \<Rightarrow> User option \<times> registry" where
  "removeUser us cid =
     (case getUser us cid of
        None \<Rightarrow> (None, us)
      | Some u \<Rightarrow> (Some u, filter (\<lambda>v. connectionId v \<noteq> cid) us))"

text \<open>
  Modelled from the spec: \<open>getUsersInRoom\<close> returns, in insertion order, all Users whose
  room matches the given name case-insensitively.
\<close>

definition getUsersInRoom :: "registry \<Rightarrow> string \<Rightarrow> User list" where
  "getUsersInRoom us rname = filter (\<lambda>v. same_ci (room v) rname) us"

text \<open>
  The registry invariant of section 3 of the specification: connection ids are unique
  across the registry, and two distinct Users of the same room (compared
  case-insensitively) never have usernames that are equal case-insensitively.
\<close>

definition registry_inv :: "registry \<Rightarrow> bool" where
  "registry_inv us \<longleftrightarrow>
     distinct (map connectionId us) \<and>
     (\<forall>u \<in> set us. \<forall>v \<in> set us.
        u \<noteq> v \<longrightarrow> same_ci (room u) (room v) \<longrightarrow> \<not> same_ci (username u) (username v))"


section \<open>Events and acknowledgements (\<open>utils/messages\<close>)\<close>

text \<open>
  The coordinates a client sends with \<open>sendLocation\<close>; the server only relays them.
\<close>

record coords =
  latitude :: real
  longitude :: real

text \<open>
  Modelled from the spec: the shape of the events that \<open>./utils/messages\<close>, missing
  from the sources, builds. Following section 6 of the specification, a \<open>message\<close> event
  carries a sender and a text, a \<open>location\<close> event a sender and the coordinates; the
  wall-clock timestamp both carry is left out. The \<open>roomInfo\<close> event is the object
  literal built in \<open>server.js\<close>: the room and the result of \<open>getUsersInRoom\<close>.
\<close>

datatype event =
    Message string string
  | Location string coords
  | RoomInfo string "User list"

text \<open>
  Modelled from the spec: \<open>generateMessage\<close> and \<open>generateLocation\<close> of the missing
  \<open>./utils/messages\<close> build the \<open>message\<close> and the \<open>location\<close> event from a sender
  and a payload.
\<close>

definition generateMessage :: "string \<Rightarrow> string \<Rightarrow> event" where
  "generateMessage sender txt = Message sender txt"

definition generateLocation :: "string \<Rightarrow> coords \<Rightarrow> event" where
  "generateLocation sender location = Location sender location"

text \<open>
  What a handler passes to the acknowledgement callback \<open>cb\<close>: nothing (\<open>cb()\<close>), the
  error returned by \<open>addUser\<close> (\<open>cb(error)\<close>), or a text.
\<close>

datatype ack = Success | JoinError AddUserError | Rejected string

text \<open>
  The observable actions of a handler, in the order it performs them: an event emitted to
  a list of target connections, or a call of the acknowledgement callback.
\<close>

datatype effect = Emit "connId list" event | Ack ack


section \<open>The transport (socket.io rooms)\<close>

text \<open>
  The transport keeps which connected socket has joined which room. The emit primitives
  follow the comment that heads \<open>server.js\<close>: \<open>socket.emit\<close> sends to the one client,
  \<open>io.to(r).emit\<close> to every connected client in room \<open>r\<close>, and
  \<open>socket.broadcast.to(r).emit\<close> to every client in room \<open>r\<close> except the socket itself.
  Rooms are compared as they are written (case-sensitively).
\<close>

type_synonym adapter = "(connId \<times> string) list"

definition members :: "adapter \<Rightarrow> string \<Rightarrow> connId list" where
  "members rs r = map fst (filter (\<lambda>m. snd m = r) rs)"

definition socket_join :: "adapter \<Rightarrow> connId \<Rightarrow> string \<Rightarrow> adapter" where
  "socket_join rs cid r = (if (cid, r) \<in> set rs then rs else rs @ [(cid, r)])"

text \<open>A socket that disconnects is no longer a connected client of any room.\<close>

definition leave_all :: "adapter \<Rightarrow> connId \<Rightarrow> adapter" where
  "leave_all rs cid = filter (\<lambda>m. fst m \<noteq> cid) rs"

definition socket_emit :: "connId \<Rightarrow> event \<Rightarrow> effect" where
  "socket_emit cid ev = Emit [cid] ev"

definition io_to_emit :: "adapter \<Rightarrow> string \<Rightarrow> event \<Rightarrow> effect" where
  "io_to_emit rs r ev = Emit (members rs r) ev"

definition socket_broadcast_to_emit :: "adapter \<Rightarrow> connId \<Rightarrow> string \<Rightarrow> event \<Rightarrow> effect" where
  "socket_broadcast_to_emit rs cid r ev = Emit (filter (\<lambda>c. c \<noteq> cid) (members rs r)) ev"


section \<open>The connection handlers (\<open>server.js\<close>)\<close>

text \<open>
  The state the handlers share: the module-level registry of \<open>utils/users\<close> and the
  room membership held by the transport.
\<close>

record server =
  users :: registry
  rooms :: adapter

definition init_server :: server where
  "init_server = \<lparr>users = [], rooms = []\<rparr>"

definition system :: string where
  "system = ''Chat App''"

text \<open>
  Reading \<open>user.room\<close> when \<open>getUser\<close> returned \<open>undefined\<close> throws a \<open>TypeError\<close>
  out of the handler.
\<close>

datatype error = TypeError

text \<open>
  \<open>socket.on('join', ({ username, room }, cb) => ...)\<close> for the socket \<open>cid\<close>. The
  payload fields are strings.
\<close>

definition on_join :: "server \<Rightarrow> connId \<Rightarrow> string \<Rightarrow> string \<Rightarrow> server \<times> effect list" where
  "on_join s cid uname rname =
     (case addUser (users s) cid uname rname of
        Inl err \<Rightarrow> (s, [Ack (JoinError err)])
      | Inr (user, us') \<Rightarrow>
          let s' = \<lparr>users = us', rooms = socket_join (rooms s) cid (room user)\<rparr>
          in (s',
              [socket_emit cid
                 (generateMessage system (''Welcome '' @ toLowerCase uname @ ''!'')),
               socket_broadcast_to_emit (rooms s') cid (room user)
                 (generateMessage system (username user @ '' has joined.'')),
               io_to_emit (rooms s') (room user)
                 (RoomInfo (room user) (getUsersInRoom (users s') (room user))),
               Ack Success]))"

text \<open>
  \<open>socket.on('sendMessage', (message, cb) => ...)\<close>. The profanity filter of the
  \<open>bad-words\<close> package is the parameter \<open>isProfane\<close>.
\<close>

definition on_sendMessage ::
  "(string \<Rightarrow> bool) \<Rightarrow> server \<Rightarrow> connId \<Rightarrow> string \<Rightarrow> error + (server \<times> effect list)" where
  "on_sendMessage isProfane s cid message =
     (let user = getUser (users s) cid in
      if isProfane message then Inr (s, [Ack (Rejected ''Profanity is not allowed.'')])
      else
        (case user of
           None \<Rightarrow> Inl TypeError
         | Some u \<Rightarrow>
             Inr (s, [io_to_emit (rooms s) (room u) (generateMessage (username u) message),
                      Ack Success])))"

text \<open>\<open>socket.on('sendLocation', (location, cb) => ...)\<close>.\<close>

definition on_sendLocation :: "server \<Rightarrow> connId \<Rightarrow> coords \<Rightarrow> error + (server \<times> effect list)" where
  "on_sendLocation s cid location =
     (case getUser (users s) cid of
        None \<Rightarrow> Inl TypeError
      | Some u \<Rightarrow>
          Inr (s, [io_to_emit (rooms s) (room u) (generateLocation (username u) location),
                   Ack Success]))"

text \<open>\<open>socket.on('disconnect', () => ...)\<close>.\<close>

definition on_disconnect :: "server \<Rightarrow> connId \<Rightarrow> server \<times> effect list" where
  "on_disconnect s cid =
     (case removeUser (users s) cid of
        (None, us') \<Rightarrow> (s\<lparr>users := us'\<rparr>, [])
      | (Some u, us') \<Rightarrow>
          let s' = s\<lparr>users := us'\<rparr>
          in (s',
              [io_to_emit (rooms s') (room u)
                 (generateMessage system (username u @ '' has left the room.'')),
               io_to_emit (rooms s') (room u)
                 (RoomInfo (room u) (getUsersInRoom (users s') (room u)))]))"

text \<open>
  A disconnect as the transport delivers it: the socket has left its rooms when the
  \<open>disconnect\<close> handler runs.
\<close>

definition socket_disconnect :: "server \<Rightarrow> connId \<Rightarrow> server \<times> effect list" where
  "socket_disconnect s cid = on_disconnect (s\<lparr>rooms := leave_all (rooms s) cid\<rparr>) cid"

text \<open>
  The session state of a connection, read off the registry: \<open>Connected\<close> while no User
  is bound to it, \<open>Joined\<close> once one is.
\<close>

datatype session = Connected | Joined

definition session_of :: "server \<Rightarrow> connId \<Rightarrow> session" where
  "session_of s cid = (case getUser (users s) cid of None \<Rightarrow> Connected | Some u \<Rightarrow> Joined)"

text \<open>
  The server states that arise from the start state by joins and disconnects of any
  connections, in any order (\<open>sendMessage\<close> and \<open>sendLocation\<close> leave the state as it is).
\<close>

inductive reachable :: "server \<Rightarrow> bool" where
  reach_init: "reachable init_server"
| reach_join: "reachable s \<Longrightarrow> reachable (fst (on_join s cid uname rname))"
| reach_disconnect: "reachable s \<Longrightarrow> reachable (fst (socket_disconnect s cid))"

text \<open>Every registered User's socket is a member of the transport room the User names.\<close>

definition joined_rooms :: "server \<Rightarrow> bool" where
  "joined_rooms s \<longleftrightarrow> (\<forall>u \<in> set (users s). connectionId u \<in> set (members (rooms s) (room u)))"


section \<open>Properties of the registry\<close>

lemma same_ci_sym: "same_ci a b \<Longrightarrow> same_ci b a"
  by (simp add: same_ci_def)


lemma getUser_None_iff: "getUser us cid = None \<longleftrightarrow> cid \<notin> connectionId ` set us"
  unfolding getUser_def by (induction us) auto

lemma filter_absent: "cid \<notin> connectionId ` set us \<Longrightarrow> filter (\<lambda>v. connectionId v \<noteq> cid) us = us"
  by (induction us) auto

lemma getUser_filter: "getUser (filter (\<lambda>v. connectionId v \<noteq> cid) us) cid = None"
  by (auto simp: getUser_None_iff)

lemma removeUser_registry: "snd (removeUser us cid) = filter (\<lambda>v. connectionId v \<noteq> cid) us"
  by (auto simp: removeUser_def getUser_None_iff filter_absent split: option.splits)


lemma registry_inv_filter: "registry_inv us \<Longrightarrow> registry_inv (filter P us)"
  by (simp add: registry_inv_def distinct_map_filter)

lemma registry_inv_insert_user:
  assumes inv: "registry_inv us" and free: "\<not> holds_name us (username u) (room u)"
  shows "registry_inv (insert_user u us)"
proof -
  let ?rest = "filter (\<lambda>v. connectionId v \<noteq> connectionId u) us"
  have rest: "registry_inv ?rest" using inv by (rule registry_inv_filter)
  have ids: "distinct (map connectionId (?rest @ [u]))"
    using rest by (auto simp: registry_inv_def)
  have names: "\<not> (same_ci (room v) (room u) \<and> same_ci (username v) (username u))"
    if "v \<in> set ?rest" for v
    using free that by (auto simp: holds_name_def)
  have "\<forall>a \<in> set (?rest @ [u]). \<forall>b \<in> set (?rest @ [u]).
          a \<noteq> b \<longrightarrow> same_ci (room a) (room b) \<longrightarrow> \<not> same_ci (username a) (username b)"
  proof (intro ballI impI)
    fix a b
    assume a: "a \<in> set (?rest @ [u])" and b: "b \<in> set (?rest @ [u])"
      and ne: "a \<noteq> b" and rm: "same_ci (room a) (room b)"
    consider "a \<in> set ?rest" "b \<in> set ?rest" | "a \<in> set ?rest" "b = u" | "a = u" "b \<in> set ?rest"
      using a b ne by auto
    then show "\<not> same_ci (username a) (username b)"
    proof cases
      case 1
      then show ?thesis using rest ne rm unfolding registry_inv_def by blast
    next
      case 2
      then show ?thesis using names [of a] rm by auto
    next
      case 3
      then show ?thesis using names [of b] rm by (auto dest: same_ci_sym)
    qed
  qed
  with ids show ?thesis unfolding registry_inv_def insert_user_def by blast
qed

lemma addUser_InrD:
  assumes "addUser us cid uname rname = Inr (u, us')"
  shows "u = \<lparr>connectionId = cid, username = trim uname, room = trim rname\<rparr>"
    and "us' = insert_user u us"
    and "\<not> holds_name us (trim uname) (trim rname)"
    and "trim uname \<noteq> []" and "trim rname \<noteq> []"
  using assms by (auto simp: addUser_def Let_def split: if_splits)

lemma addUser_preserves_inv:
  assumes "registry_inv us" and "addUser us cid uname rname = Inr (u, us')"
  shows "registry_inv us'"
proof -
  note d = addUser_InrD [OF assms(2)]
  have "\<not> holds_name us (username u) (room u)" using d(1,3) by simp
  then show ?thesis using assms(1) d(2) by (simp add: registry_inv_insert_user)
qed

lemma removeUser_preserves_inv: "registry_inv us \<Longrightarrow> registry_inv (snd (removeUser us cid))"
  by (simp add: removeUser_registry registry_inv_filter)

section \<open>Properties of the transport and of the reachable states\<close>

lemma in_members: "c \<in> set (members rs r) \<longleftrightarrow> (c, r) \<in> set rs"
  by (force simp: members_def)

lemma members_socket_join:
  "set (members (socket_join rs cid r) r') =
     (if r' = r then insert cid (set (members rs r')) else set (members rs r'))"
  by (auto simp: in_members socket_join_def)

lemma members_leave_all: "set (members (leave_all rs cid) r) = set (members rs r) - {cid}"
  by (auto simp: in_members leave_all_def)

lemma leave_all_idem: "leave_all (leave_all rs cid) cid = leave_all rs cid"
  by (simp add: leave_all_def)

lemma on_join_state:
  "fst (on_join s cid uname rname) =
     (case addUser (users s) cid uname rname of
        Inl e \<Rightarrow> s
      | Inr (u, us') \<Rightarrow> \<lparr>users = us', rooms = socket_join (rooms s) cid (room u)\<rparr>)"
  by (simp add: on_join_def Let_def split: sum.splits prod.splits)

lemma socket_disconnect_state:
  "fst (socket_disconnect s cid) =
     \<lparr>users = filter (\<lambda>v. connectionId v \<noteq> cid) (users s), rooms = leave_all (rooms s) cid\<rparr>"
  by (auto simp: socket_disconnect_def on_disconnect_def removeUser_def Let_def getUser_None_iff
      filter_absent split: option.splits)

lemma send_keeps_state:
  "on_sendMessage isProfane s cid message = Inr (s', es) \<Longrightarrow> s' = s"
  "on_sendLocation s cid location = Inr (s', es) \<Longrightarrow> s' = s"
  by (auto simp: on_sendMessage_def on_sendLocation_def split: if_splits option.splits)

lemma join_preserves_joined_rooms:
  assumes "joined_rooms s"
  shows "joined_rooms (fst (on_join s cid uname rname))"
proof (cases "addUser (users s) cid uname rname")
  case (Inl e)
  then show ?thesis using assms by (simp add: on_join_state)
next
  case (Inr p)
  obtain u us' where p: "p = (u, us')" by (cases p)
  note d = addUser_InrD [OF Inr [unfolded p]]
  have "connectionId v \<in> set (members (socket_join (rooms s) cid (room u)) (room v))"
    if "v \<in> set us'" for v
  proof (cases "v = u")
    case True
    then show ?thesis using d(1) by (simp add: members_socket_join)
  next
    case False
    then have "v \<in> set (users s)" using that d(2) by (auto simp: insert_user_def)
    then show ?thesis using assms by (auto simp: joined_rooms_def members_socket_join)
  qed
  then show ?thesis using Inr p by (simp add: on_join_state joined_rooms_def)
qed

lemma disconnect_preserves_joined_rooms:
  "joined_rooms s \<Longrightarrow> joined_rooms (fst (socket_disconnect s cid))"
  by (auto simp: socket_disconnect_state joined_rooms_def members_leave_all)

lemma reachable_invariants: "reachable s \<Longrightarrow> registry_inv (users s) \<and> joined_rooms s"
proof (induction rule: reachable.induct)
  case reach_init
  show ?case by (simp add: init_server_def registry_inv_def joined_rooms_def)
next
  case (reach_join s cid uname rname)
  then have "registry_inv (users (fst (on_join s cid uname rname)))"
    by (auto simp: on_join_state split: sum.splits intro: addUser_preserves_inv)
  then show ?case using reach_join by (simp add: join_preserves_joined_rooms)
next
  case (reach_disconnect s cid)
  then have "registry_inv (users (fst (socket_disconnect s cid)))"
    by (simp add: socket_disconnect_state registry_inv_filter)
  then show ?case using reach_disconnect by (simp add: disconnect_preserves_joined_rooms)
qed


text \<open>The definitions a concrete run of the model unfolds.\<close>

lemmas eval_defs = addUser_def removeUser_def getUser_def getUsersInRoom_def insert_user_def
  holds_name_def same_ci_def toLowerCase_def lower_char_def trim_def is_space_def Let_def
  on_join_def on_sendMessage_def on_sendLocation_def on_disconnect_def socket_disconnect_def
  init_server_def socket_join_def leave_all_def members_def socket_emit_def io_to_emit_def
  socket_broadcast_to_emit_def generateMessage_def generateLocation_def system_def


section \<open>The claims\<close>

text \<open>
  C1. A \<open>sendMessage\<close> or \<open>sendLocation\<close> from a connection that has not joined should
  end in an error acknowledgement and never make the handler fail. The handlers do
  otherwise: on a fresh server, for a connection in state \<open>Connected\<close>, \<open>sendLocation\<close>
  and a \<open>sendMessage\<close> with a text the filter accepts both throw a \<open>TypeError\<close>, with
  no acknowledgement.
\<close>

theorem send_before_join_throws:
  "session_of init_server ''c1'' = Connected \<and>
   on_sendLocation init_server ''c1'' \<lparr>latitude = 0, longitude = 0\<rparr> = Inl TypeError \<and>
   on_sendMessage (\<lambda>t. False) init_server ''c1'' ''hello'' = Inl TypeError"
  by (simp add: session_of_def on_sendLocation_def on_sendMessage_def init_server_def getUser_def)

text \<open>
  C2. The registry invariant holds at all times: within one room (compared
  case-insensitively) no two distinct Users have usernames that are equal
  case-insensitively, and no two Users share a connection id. A successful \<open>addUser\<close>
  preserves the invariant and binds the new User to the calling connection,
  \<open>removeUser\<close> preserves it, and it holds in every reachable state of the server.
\<close>

theorem registry_invariant_preserved:
  "(registry_inv us \<longrightarrow>
      (case addUser us cid uname rname of
         Inl e \<Rightarrow> True
       | Inr (u, us') \<Rightarrow> registry_inv us' \<and> connectionId u = cid \<and> u \<in> set us')) \<and>
   (registry_inv us \<longrightarrow> registry_inv (snd (removeUser us rid))) \<and>
   (reachable s \<longrightarrow> registry_inv (users s))"
proof (intro conjI impI)
  assume inv: "registry_inv us"
  show "case addUser us cid uname rname of
          Inl e \<Rightarrow> True
        | Inr (u, us') \<Rightarrow> registry_inv us' \<and> connectionId u = cid \<and> u \<in> set us'"
  proof (cases "addUser us cid uname rname")
    case (Inl e)
    then show ?thesis by simp
  next
    case (Inr p)
    obtain u us' where p: "p = (u, us')" by (cases p)
    have "registry_inv us'" using inv Inr p by (auto intro: addUser_preserves_inv)
    moreover have "connectionId u = cid" "u \<in> set us'"
      using addUser_InrD(1,2) [OF Inr [unfolded p]] by (simp_all add: insert_user_def)
    ultimately show ?thesis using Inr p by simp
  qed
next
  assume "registry_inv us"
  then show "registry_inv (snd (removeUser us rid))" by (rule removeUser_preserves_inv)
next
  assume "reachable s"
  then show "registry_inv (users s)" by (simp add: reachable_invariants)
qed

theorem registry_invariant_preserved_witness:
  "registry_inv [\<lparr>connectionId = ''c1'', username = ''Alice'', room = ''lobby''\<rparr>] \<and>
   addUser [\<lparr>connectionId = ''c1'', username = ''Alice'', room = ''lobby''\<rparr>] ''c2'' ''Bob'' ''Lobby'' =
     Inr (\<lparr>connectionId = ''c2'', username = ''Bob'', room = ''Lobby''\<rparr>,
          [\<lparr>connectionId = ''c1'', username = ''Alice'', room = ''lobby''\<rparr>,
           \<lparr>connectionId = ''c2'', username = ''Bob'', room = ''Lobby''\<rparr>]) \<and>
   registry_inv [\<lparr>connectionId = ''c1'', username = ''Alice'', room = ''lobby''\<rparr>,
                 \<lparr>connectionId = ''c2'', username = ''Bob'', room = ''Lobby''\<rparr>] \<and>
   registry_inv (snd (removeUser [\<lparr>connectionId = ''c1'', username = ''Alice'', room = ''lobby''\<rparr>] ''c1'')) \<and>
   reachable (fst (on_join init_server ''c1'' ''Alice'' ''lobby'')) \<and>
   registry_inv (users (fst (on_join init_server ''c1'' ''Alice'' ''lobby'')))"
proof -
  let ?us = "[\<lparr>connectionId = ''c1'', username = ''Alice'', room = ''lobby''\<rparr>]"
  let ?s = "fst (on_join init_server ''c1'' ''Alice'' ''lobby'')"
  have inv: "registry_inv ?us" by (simp add: registry_inv_def)
  have add: "addUser ?us ''c2'' ''Bob'' ''Lobby'' =
     Inr (\<lparr>connectionId = ''c2'', username = ''Bob'', room = ''Lobby''\<rparr>,
          ?us @ [\<lparr>connectionId = ''c2'', username = ''Bob'', room = ''Lobby''\<rparr>])"
    by (simp add: eval_defs)
  have reach: "reachable ?s" by (rule reach_join [OF reach_init])
  show ?thesis
    using registry_invariant_preserved [of ?us "''c2''" "''Bob''" "''Lobby''" "''c1''" ?s] inv add reach
    by simp
qed







text \<open>
  C5. A \<open>sendMessage\<close> whose text the profanity predicate classifies as profane is
  acknowledged with \<open>Profanity is not allowed.\<close>; this acknowledgement is the only
  action, so no event is emitted to any connection, and the state (registry and rooms)
  is unchanged.
\<close>

theorem profane_message_rejected:
  assumes "isProfane message"
  shows "on_sendMessage isProfane s cid message =
           Inr (s, [Ack (Rejected ''Profanity is not allowed.'')])"
  using assms by (simp add: on_sendMessage_def)

theorem profane_message_rejected_witness:
  "(\<lambda>t. t = ''darn'') ''darn'' \<and>
   on_sendMessage (\<lambda>t. t = ''darn'')
     \<lparr>users = [\<lparr>connectionId = ''c1'', username = ''Alice'', room = ''lobby''\<rparr>],
      rooms = [(''c1'', ''lobby'')]\<rparr> ''c1'' ''darn'' =
     Inr (\<lparr>users = [\<lparr>connectionId = ''c1'', username = ''Alice'', room = ''lobby''\<rparr>],
           rooms = [(''c1'', ''lobby'')]\<rparr>,
          [Ack (Rejected ''Profanity is not allowed.'')])"
  using profane_message_rejected [of "\<lambda>t. t = ''darn''" "''darn''"
      "\<lparr>users = [\<lparr>connectionId = ''c1'', username = ''Alice'', room = ''lobby''\<rparr>],
        rooms = [(''c1'', ''lobby'')]\<rparr>" "''c1''"]
  by simp




text \<open>
  C7. A join that fails validation is acknowledged with the specific error and does nothing
  else: \<open>MissingField\<close> when the username or the room is empty after trimming,
  \<open>UsernameTaken\<close> when both are non-empty and a User of the same room already holds the
  username. Whenever \<open>addUser\<close> fails, the only action is the acknowledgement with its
  error, the state is unchanged, and a connection that was in state \<open>Connected\<close> still is.
\<close>

theorem failed_join_acknowledged:
  "(trim uname = [] \<or> trim rname = [] \<longrightarrow>
      on_join s cid uname rname = (s, [Ack (JoinError MissingField)])) \<and>
   (trim uname \<noteq> [] \<and> trim rname \<noteq> [] \<and> holds_name (users s) (trim uname) (trim rname) \<longrightarrow>
      on_join s cid uname rname = (s, [Ack (JoinError UsernameTaken)])) \<and>
   (\<forall>e. addUser (users s) cid uname rname = Inl e \<longrightarrow>
      on_join s cid uname rname = (s, [Ack (JoinError e)]) \<and>
      (e = MissingField \<or> e = UsernameTaken) \<and>
      (session_of s cid = Connected \<longrightarrow>
         session_of (fst (on_join s cid uname rname)) cid = Connected))"
proof (intro conjI impI allI)
  assume "trim uname = [] \<or> trim rname = []"
  then show "on_join s cid uname rname = (s, [Ack (JoinError MissingField)])"
    by (auto simp: on_join_def addUser_def Let_def)
next
  assume "trim uname \<noteq> [] \<and> trim rname \<noteq> [] \<and> holds_name (users s) (trim uname) (trim rname)"
  then show "on_join s cid uname rname = (s, [Ack (JoinError UsernameTaken)])"
    by (simp add: on_join_def addUser_def Let_def)
next
  fix e
  assume fail: "addUser (users s) cid uname rname = Inl e"
  then show run: "on_join s cid uname rname = (s, [Ack (JoinError e)])"
    by (simp add: on_join_def)
  show "e = MissingField \<or> e = UsernameTaken" by (cases e) simp_all
  assume "session_of s cid = Connected"
  then show "session_of (fst (on_join s cid uname rname)) cid = Connected"
    by (simp add: run)
qed

theorem failed_join_acknowledged_witness:
  "(trim ''  '' = [] \<or> trim ''lobby'' = []) \<and>
   on_join init_server ''c1'' ''  '' ''lobby'' = (init_server, [Ack (JoinError MissingField)]) \<and>
   (trim ''alice'' \<noteq> [] \<and> trim '' Lobby'' \<noteq> [] \<and>
    holds_name [\<lparr>connectionId = ''c1'', username = ''Alice'', room = ''lobby''\<rparr>]
      (trim ''alice'') (trim '' Lobby'')) \<and>
   addUser [\<lparr>connectionId = ''c1'', username = ''Alice'', room = ''lobby''\<rparr>]
      ''c2'' ''alice'' '' Lobby'' = Inl UsernameTaken \<and>
   session_of \<lparr>users = [\<lparr>connectionId = ''c1'', username = ''Alice'', room = ''lobby''\<rparr>],
                rooms = [(''c1'', ''lobby'')]\<rparr> ''c2'' = Connected \<and>
   on_join \<lparr>users = [\<lparr>connectionId = ''c1'', username = ''Alice'', room = ''lobby''\<rparr>],
             rooms = [(''c1'', ''lobby'')]\<rparr> ''c2'' ''alice'' '' Lobby'' =
     (\<lparr>users = [\<lparr>connectionId = ''c1'', username = ''Alice'', room = ''lobby''\<rparr>],
       rooms = [(''c1'', ''lobby'')]\<rparr>, [Ack (JoinError UsernameTaken)]) \<and>
   session_of
     (fst (on_join \<lparr>users = [\<lparr>connectionId = ''c1'', username = ''Alice'', room = ''lobby''\<rparr>],
                     rooms = [(''c1'', ''lobby'')]\<rparr> ''c2'' ''alice'' '' Lobby'')) ''c2'' = Connected"
proof -
  let ?s = "\<lparr>users = [\<lparr>connectionId = ''c1'', username = ''Alice'', room = ''lobby''\<rparr>],
             rooms = [(''c1'', ''lobby'')]\<rparr>"
  have blank: "trim ''  '' = []" by (simp add: trim_def is_space_def)
  have t1: "trim ''alice'' = ''alice''" and t2: "trim '' Lobby'' = ''Lobby''"
    by (simp_all add: trim_def is_space_def)
  have held: "holds_name (users ?s) ''alice'' ''Lobby''"
    by (simp add: holds_name_def same_ci_def toLowerCase_def lower_char_def)
  have fail: "addUser (users ?s) ''c2'' ''alice'' '' Lobby'' = Inl UsernameTaken"
    using held by (simp add: addUser_def t1 t2)
  have conn: "session_of ?s ''c2'' = Connected"
    by (simp add: session_of_def getUser_def)
  show ?thesis
    using failed_join_acknowledged [of "''  ''" "''lobby''" init_server "''c1''"]
      failed_join_acknowledged [of "''alice''" "'' Lobby''" ?s "''c2''"]
      blank t1 t2 held fail conn
    by simp
qed

text \<open>
  C8. Disconnect is idempotent. For a connection with no User in the registry the
  \<open>disconnect\<close> handler performs no action and changes nothing; and after one disconnect
  of a connection, a second one (of the handler alone, or of the transport together with the
  handler) performs no action and leaves the state as the first one left it.
\<close>

theorem disconnect_idempotent:
  "(getUser (users s) cid = None \<longrightarrow> on_disconnect s cid = (s, [])) \<and>
   on_disconnect (fst (on_disconnect s cid)) cid = (fst (on_disconnect s cid), []) \<and>
   socket_disconnect (fst (socket_disconnect s cid)) cid = (fst (socket_disconnect s cid), [])"
proof -
  have absent: "on_disconnect t cid = (t, [])" if "getUser (users t) cid = None" for t
    using that by (simp add: on_disconnect_def removeUser_def)
  have once: "fst (on_disconnect t cid) = t\<lparr>users := filter (\<lambda>v. connectionId v \<noteq> cid) (users t)\<rparr>"
    for t
    by (auto simp: on_disconnect_def removeUser_def Let_def getUser_None_iff filter_absent
        split: option.splits)
  have gone: "getUser (users (fst (on_disconnect t cid))) cid = None" for t
    by (simp add: once getUser_filter)
  have twice: "on_disconnect (fst (on_disconnect t cid)) cid = (fst (on_disconnect t cid), [])" for t
    by (rule absent [OF gone])
  let ?s1 = "fst (socket_disconnect s cid)"
  have left: "?s1\<lparr>rooms := leave_all (rooms ?s1) cid\<rparr> = ?s1"
    by (simp add: socket_disconnect_state leave_all_idem)
  have "getUser (users ?s1) cid = None"
    by (simp add: socket_disconnect_state getUser_filter)
  then have "socket_disconnect ?s1 cid = (?s1, [])"
    unfolding socket_disconnect_def [of ?s1] left by (rule absent)
  with absent [of s] twice [of s] show ?thesis by blast
qed

theorem disconnect_idempotent_witness:
  "getUser (users init_server) ''c9'' = None \<and>
   on_disconnect init_server ''c9'' = (init_server, []) \<and>
   socket_disconnect
     (fst (socket_disconnect
        \<lparr>users = [\<lparr>connectionId = ''c1'', username = ''Alice'', room = ''lobby''\<rparr>,
                  \<lparr>connectionId = ''c2'', username = ''Bob'', room = ''lobby''\<rparr>],
         rooms = [(''c1'', ''lobby''), (''c2'', ''lobby'')]\<rparr> ''c1'')) ''c1'' =
     (\<lparr>users = [\<lparr>connectionId = ''c2'', username = ''Bob'', room = ''lobby''\<rparr>],
       rooms = [(''c2'', ''lobby'')]\<rparr>, [])"
proof -
  let ?s = "\<lparr>users = [\<lparr>connectionId = ''c1'', username = ''Alice'', room = ''lobby''\<rparr>,
                      \<lparr>connectionId = ''c2'', username = ''Bob'', room = ''lobby''\<rparr>],
             rooms = [(''c1'', ''lobby''), (''c2'', ''lobby'')]\<rparr>"
  have none: "getUser (users init_server) ''c9'' = None"
    by (simp add: init_server_def getUser_def)
  have first: "fst (socket_disconnect ?s ''c1'') =
      \<lparr>users = [\<lparr>connectionId = ''c2'', username = ''Bob'', room = ''lobby''\<rparr>],
       rooms = [(''c2'', ''lobby'')]\<rparr>"
    by (simp add: socket_disconnect_def on_disconnect_def removeUser_def getUser_def leave_all_def)
  show ?thesis
    using disconnect_idempotent [of init_server "''c9''"] disconnect_idempotent [of ?s "''c1''"]
      none first
    by simp
qed

text \<open>
  C9. In \<open>sendMessage\<close> the profanity check comes before the looked-up User is used:
  whether or not the connection has joined, a profane text yields the rejection
  acknowledgement and nothing else; and the handler throws exactly when the text is not
  profane and the connection is in state \<open>Connected\<close>.
\<close>

theorem profanity_checked_before_user:
  "(isProfane message \<longrightarrow>
      on_sendMessage isProfane s cid message =
        Inr (s, [Ack (Rejected ''Profanity is not allowed.'')])) \<and>
   (on_sendMessage isProfane s cid message = Inl TypeError \<longleftrightarrow>
      \<not> isProfane message \<and> session_of s cid = Connected)"
  by (auto simp: on_sendMessage_def session_of_def split: option.splits)

theorem profanity_checked_before_user_witness:
  "(\<lambda>t. t = ''darn'') ''darn'' \<and>
   session_of init_server ''c1'' = Connected \<and>
   on_sendMessage (\<lambda>t. t = ''darn'') init_server ''c1'' ''darn'' =
     Inr (init_server, [Ack (Rejected ''Profanity is not allowed.'')]) \<and>
   \<not> (\<lambda>t. t = ''darn'') ''hello'' \<and>
   on_sendMessage (\<lambda>t. t = ''darn'') init_server ''c1'' ''hello'' = Inl TypeError"
proof -
  have conn: "session_of init_server ''c1'' = Connected"
    by (simp add: session_of_def init_server_def getUser_def)
  show ?thesis
    using profanity_checked_before_user [of "\<lambda>t. t = ''darn''" "''darn''" init_server "''c1''"]
      profanity_checked_before_user [of "\<lambda>t. t = ''darn''" "''hello''" init_server "''c1''"]
      conn
    by simp
qed

text \<open>
  C10. On a successful join the first action is the welcome message, whose text is built
  from the username as the client sent it, lower-cased; the second is the announcement,
  whose text is built from the username stored on the returned User. When the stored
  username is not the lower-cased raw one, the two texts name the joiner differently.
\<close>

theorem welcome_and_announcement_names:
  assumes "addUser (users s) cid uname rname = Inr (u, us')"
  shows "snd (on_join s cid uname rname) ! 0 =
           Emit [cid] (Message system (''Welcome '' @ toLowerCase uname @ ''!'')) \<and>
         (\<exists>targets. snd (on_join s cid uname rname) ! 1 =
            Emit targets (Message system (username u @ '' has joined.''))) \<and>
         (username u \<noteq> toLowerCase uname \<longrightarrow>
            ''Welcome '' @ toLowerCase uname @ ''!'' \<noteq> ''Welcome '' @ username u @ ''!'' \<and>
            toLowerCase uname @ '' has joined.'' \<noteq> username u @ '' has joined.'')"
  using assms
  by (simp add: on_join_def Let_def socket_emit_def socket_broadcast_to_emit_def
      generateMessage_def)

theorem welcome_and_announcement_names_witness:
  "addUser (users init_server) ''c1'' '' bob'' ''lobby'' =
     Inr (\<lparr>connectionId = ''c1'', username = ''bob'', room = ''lobby''\<rparr>,
          [\<lparr>connectionId = ''c1'', username = ''bob'', room = ''lobby''\<rparr>]) \<and>
   username \<lparr>connectionId = ''c1'', username = ''bob'', room = ''lobby''\<rparr> \<noteq> toLowerCase '' bob'' \<and>
   snd (on_join init_server ''c1'' '' bob'' ''lobby'') ! 0 =
     Emit [''c1''] (Message ''Chat App'' ''Welcome  bob!'') \<and>
   snd (on_join init_server ''c1'' '' bob'' ''lobby'') ! 1 =
     Emit [] (Message ''Chat App'' ''bob has joined.'')"
proof -
  have add: "addUser (users init_server) ''c1'' '' bob'' ''lobby'' =
     Inr (\<lparr>connectionId = ''c1'', username = ''bob'', room = ''lobby''\<rparr>,
          [\<lparr>connectionId = ''c1'', username = ''bob'', room = ''lobby''\<rparr>])"
    by (simp add: eval_defs)
  have lower: "toLowerCase '' bob'' = '' bob''"
    by (simp add: toLowerCase_def lower_char_def)
  have second: "snd (on_join init_server ''c1'' '' bob'' ''lobby'') ! 1 =
     Emit [] (Message ''Chat App'' ''bob has joined.'')"
    by (simp add: eval_defs)
  show ?thesis
    using welcome_and_announcement_names [OF add] add lower second
    by (simp add: system_def)
qed

end
